theory Spec2Isabelle
  imports Complex_Main
begin

section \<open>Data model (src/index.ts)\<close>

text \<open>
  JavaScript strings are sequences of UTF-16 code units; a code unit is a natural number
  below 65536. JavaScript numbers are modelled as exact reals: the embedding idealises
  IEEE double arithmetic, so it knows no rounding, no overflow, no Infinity and no NaN.
  The one place where this matters for the shape of a result is a division by
  \<open>config.initialElo = 0\<close> (Infinity or NaN in JavaScript, 0 in HOL); the theorems
  about computed deltas therefore assume a non-zero \<open>initialElo\<close>.
\<close>

type_synonym jstring = "nat list"

record Config =
  initialElo :: real
  k :: real

record Elo =
  uid :: jstring
  name :: jstring
  elo :: real

datatype EloStatus = Lose | Win

text \<open>The numeric value of the const enum: \<open>Lose = 0\<close>, \<open>Win = 1\<close>.\<close>

fun status_num :: "EloStatus \<Rightarrow> real" where
  "status_num Lose = 0"
| "status_num Win = 1"

text \<open>The enum member whose value is \<open>1 - status\<close>.\<close>

fun flip_status :: "EloStatus \<Rightarrow> EloStatus" where
  "flip_status Lose = Win"
| "flip_status Win = Lose"

record EloRequest =
  rid :: nat
  src :: jstring
  dest :: jstring
  status :: EloStatus
  srcDeltaElo :: real
  destDeltaElo :: real

section \<open>The database the plugin injects\<close>

text \<open>
  The tables \<open>w-elo\<close> (primary key \<open>uid\<close>) and \<open>w-elo-request\<close> (primary key
  \<open>rid\<close>, auto-incremented) live in the host framework's database service, which is
  not part of this repository. It is modelled as two lists of rows and the counter of
  the auto-increment; rows are kept as written, whatever the column type declared for
  them. Every database call is taken to succeed and to take effect before the next one
  starts, also the calls the source does not await.
\<close>

record Store =
  w_elo :: "Elo list"
  w_elo_request :: "EloRequest list"
  autoInc :: nat

definition empty_store :: Store where
  "empty_store = \<lparr>w_elo = [], w_elo_request = [], autoInc = 1\<rparr>"

text \<open>
  Modelled from the spec: \<open>ctx.database.get('w-elo', uid)\<close>, the Rating Store's
  \<open>getPlayer\<close>: the rows with that primary key, none on a miss.
\<close>

definition get_elo :: "Elo list \<Rightarrow> jstring \<Rightarrow> Elo list" where
  "get_elo tbl u = filter (\<lambda>p. uid p = u) tbl"

text \<open>
  Modelled from the spec: \<open>ctx.database.get('w-elo-request', { src, dest })\<close>, the
  Rating Store's \<open>findChallenge\<close>: the rows matching both fields, an exact directed
  match.
\<close>

definition get_request :: "EloRequest list \<Rightarrow> jstring \<Rightarrow> jstring \<Rightarrow> EloRequest list" where
  "get_request tbl a b = filter (\<lambda>r. src r = a \<and> dest r = b) tbl"

text \<open>The array destructuring \<open>const [ x ] = rows\<close>: the first row, or undefined.\<close>

definition first :: "'a list \<Rightarrow> 'a option" where
  "first xs = (case xs of [] \<Rightarrow> None | x # _ \<Rightarrow> Some x)"

text \<open>
  Modelled from the spec: \<open>ctx.database.create('w-elo', row)\<close>, the Rating Store's
  \<open>createPlayer\<close>. The source calls it only after a lookup of the key found no row.
\<close>

definition create_elo :: "Store \<Rightarrow> Elo \<Rightarrow> Store" where
  "create_elo s p = s\<lparr>w_elo := w_elo s @ [p]\<rparr>"

text \<open>
  Modelled from the spec: \<open>ctx.database.set('w-elo', uid, { elo })\<close>, the Rating
  Store's \<open>setPlayerRating\<close>: overwrites the field in the rows with that key.
\<close>

definition set_elo :: "Store \<Rightarrow> jstring \<Rightarrow> real \<Rightarrow> Store" where
  "set_elo s u e = s\<lparr>w_elo := map (\<lambda>p. if uid p = u then p\<lparr>elo := e\<rparr> else p) (w_elo s)\<rparr>"

text \<open>
  Modelled from the spec: \<open>ctx.database.create('w-elo-request', row)\<close> with no
  \<open>rid\<close> given, the Rating Store's \<open>createChallenge\<close>: the store assigns a fresh,
  increasing key and checks nothing else.
\<close>

definition create_request ::
  "Store \<Rightarrow> jstring \<Rightarrow> jstring \<Rightarrow> EloStatus \<Rightarrow> real \<Rightarrow> real \<Rightarrow> Store" where
  "create_request s a b st ds dd =
     s\<lparr>w_elo_request := w_elo_request s @
          [\<lparr>rid = autoInc s, src = a, dest = b, status = st,
            srcDeltaElo = ds, destDeltaElo = dd\<rparr>],
       autoInc := Suc (autoInc s)\<rparr>"

text \<open>
  Modelled from the spec: \<open>ctx.database.remove('w-elo-request', rid)\<close>, the Rating
  Store's \<open>deleteChallenge\<close>: removes the rows with that key, nothing on a miss.
\<close>

definition remove_request :: "Store \<Rightarrow> nat \<Rightarrow> Store" where
  "remove_request s i = s\<lparr>w_elo_request := filter (\<lambda>r. rid r \<noteq> i) (w_elo_request s)\<rparr>"

section \<open>Display helpers (utils)\<close>

text \<open>\<open>Math.round\<close>: the nearest integer, a tie going up.\<close>

definition Math_round :: "real \<Rightarrow> int" where
  "Math_round x = \<lfloor>x + 1 / 2\<rfloor>"

text \<open>
  \<open>showElo\<close> and \<open>showDeltaElo\<close> print the rounded number in decimal; the model keeps
  the integer that is printed, and for a delta the sign prefix next to it.
\<close>

definition showElo :: "real \<Rightarrow> int" where
  "showElo e = Math_round e"

definition showDeltaElo :: "real \<Rightarrow> string \<times> int" where
  "showDeltaElo deltaElo = (let sign = (if deltaElo > 0 then ''+'' else '''')
                            in (sign, Math_round deltaElo))"

section \<open>String trimming\<close>

text \<open>
  \<open>String.prototype.trim\<close> strips the white space and line terminator code units of
  ECMAScript from both ends.
\<close>

definition is_space :: "nat \<Rightarrow> bool" where
  "is_space c = (c \<in> {9, 10, 11, 12, 13, 32, 160, 5760, 8232, 8233, 8239, 8287, 12288, 65279}
                 \<or> (8192 \<le> c \<and> c \<le> 8202))"

definition trim :: "jstring \<Rightarrow> jstring" where
  "trim s = rev (dropWhile is_space (rev (dropWhile is_space s)))"

section \<open>The three commands\<close>

text \<open>
  What a command answers: the key of the message passed to \<open>session.text\<close> with its
  parameters in the order of the source. \<open>Type_error\<close> stands for the exception of
  destructuring the first row of an empty result.
\<close>

datatype Reply =
    Elo_register_invalid_name
  | Elo_register_duplicate jstring
  | Elo_register_ok jstring real
  | Elo_need_register
  | Elo_user_not_found jstring
  | Elo_check jstring int
  | Elo_update_accept_ok jstring jstring int "string \<times> int" int "string \<times> int" EloStatus
  | Elo_update_request_duplicate jstring jstring
  | Elo_update_request_ok jstring jstring EloStatus
  | Type_error

text \<open>\<open>elo.register <name>\<close>, called by the user \<open>session_uid\<close>.\<close>

definition register :: "Config \<Rightarrow> jstring \<Rightarrow> jstring \<Rightarrow> Store \<Rightarrow> Reply \<times> Store" where
  "register config session_uid raw s =
     (let nm = trim raw in
      if nm = [] then (Elo_register_invalid_name, s)
      else (case first (get_elo (w_elo s) session_uid) of
              Some self \<Rightarrow> (Elo_register_duplicate (name self), s)
            | None \<Rightarrow>
                (Elo_register_ok nm (initialElo config),
                 create_elo s \<lparr>uid = session_uid, name = nm, elo = initialElo config\<rparr>)))"

text \<open>
  \<open>elo.check [user]\<close>: \<open>userId || session.uid\<close> takes the session's user when the
  argument is missing or the empty string.
\<close>

definition truthy :: "jstring option \<Rightarrow> bool" where
  "truthy x = (case x of None \<Rightarrow> False | Some u \<Rightarrow> u \<noteq> [])"

definition check :: "jstring \<Rightarrow> jstring option \<Rightarrow> Store \<Rightarrow> Reply \<times> Store" where
  "check session_uid userId s =
     (case first (get_elo (w_elo s) (if truthy userId then the userId else session_uid)) of
        None \<Rightarrow>
          (if truthy userId then Elo_user_not_found (the userId) else Elo_need_register, s)
      | Some user \<Rightarrow> (Elo_check (name user) (showElo (elo user)), s))"

text \<open>\<open>options.win ? EloStatus.Win : EloStatus.Lose\<close>; the option is unset when no flag is given.\<close>

definition declared :: "bool option \<Rightarrow> EloStatus" where
  "declared win = (if win = Some True then Win else Lose)"

text \<open>
  \<open>elo.update <user>\<close> with the option \<open>win\<close>. In the branch that accepts a request
  the two \<open>set\<close> calls are started in the order of the array and the \<open>remove\<close> follows
  them.
\<close>

definition update :: "Config \<Rightarrow> jstring \<Rightarrow> jstring \<Rightarrow> bool option \<Rightarrow> Store \<Rightarrow> Reply \<times> Store" where
  "update config selfId oppoId win s =
     (case first (get_elo (w_elo s) selfId) of
        None \<Rightarrow> (Elo_need_register, s)
      | Some self \<Rightarrow>
     (case first (get_elo (w_elo s) oppoId) of
        None \<Rightarrow> (Elo_user_not_found oppoId, s)
      | Some oppo \<Rightarrow>
     (let selfName = name self; oppoName = name oppo in
      case first (get_request (w_elo_request s) oppoId selfId) of
        Some req \<Rightarrow>
          (let selfDeltaElo = destDeltaElo req;
               oppoDeltaElo = srcDeltaElo req;
               selfNewElo = elo self + selfDeltaElo;
               oppoNewElo = elo oppo + oppoDeltaElo
           in (Elo_update_accept_ok selfName oppoName
                 (showElo selfNewElo) (showDeltaElo selfDeltaElo)
                 (showElo oppoNewElo) (showDeltaElo oppoDeltaElo)
                 (flip_status (status req)),
               remove_request (set_elo (set_elo s selfId selfNewElo) oppoId oppoNewElo)
                 (rid req)))
      | None \<Rightarrow>
     (case first (get_request (w_elo_request s) selfId oppoId) of
        Some req \<Rightarrow> (Elo_update_request_duplicate selfName oppoName, s)
      | None \<Rightarrow>
     (case (first (get_elo (w_elo s) selfId), first (get_elo (w_elo s) oppoId)) of
        (Some self2, Some oppo2) \<Rightarrow>
          (let selfElo = elo self2;
               oppoElo = elo oppo2;
               diffElo = oppoElo - selfElo;
               selfE = 1 / (1 + 10 powr (diffElo / initialElo config));
               oppoE = 1 / (1 + 10 powr (- diffElo / initialElo config));
               st = declared win;
               selfDeltaElo = k config * (status_num st - selfE);
               oppoDeltaElo = k config * (1 - status_num st - oppoE)
           in (Elo_update_request_ok (name self) (name oppo) st,
               create_request s selfId oppoId st selfDeltaElo oppoDeltaElo))
      | _ \<Rightarrow> (Type_error, s))))))"

section \<open>Command sequences\<close>

datatype Command =
    Register jstring jstring
  | Check jstring "jstring option"
  | Update jstring jstring "bool option"

fun step :: "Config \<Rightarrow> Command \<Rightarrow> Store \<Rightarrow> Reply \<times> Store" where
  "step config (Register u raw) s = register config u raw s"
| "step config (Check u t) s = check u t s"
| "step config (Update u v win) s = update config u v win s"

fun run :: "Config \<Rightarrow> Command list \<Rightarrow> Store \<Rightarrow> Store" where
  "run config [] s = s"
| "run config (c # cs) s = run config cs (snd (step config c s))"


text \<open>The defaults of the configuration schema.\<close>

definition default_config :: Config where
  "default_config = \<lparr>initialElo = 400, k = 32\<rparr>"

section \<open>Well-formed stores\<close>

text \<open>The unordered pair of players a request is between.\<close>

definition pair_key :: "EloRequest \<Rightarrow> jstring set" where
  "pair_key r = {src r, dest r}"

definition between :: "jstring \<Rightarrow> jstring \<Rightarrow> EloRequest \<Rightarrow> bool" where
  "between a b r = ((src r = a \<and> dest r = b) \<or> (src r = b \<and> dest r = a))"

text \<open>
  What every store reached from the empty one satisfies: no two requests between the
  same two players, no two requests with the same key, every key below the counter,
  and both ends of every request registered.
\<close>

definition wf_store :: "Store \<Rightarrow> bool" where
  "wf_store s =
     (distinct (map pair_key (w_elo_request s)) \<and>
      distinct (map rid (w_elo_request s)) \<and>
      list_all (\<lambda>r. rid r < autoInc s \<and> get_elo (w_elo s) (src r) \<noteq> []
                     \<and> get_elo (w_elo s) (dest r) \<noteq> []) (w_elo_request s))"

section \<open>Example stores\<close>

text \<open>The players and requests of the examples.\<close>

abbreviation uA :: jstring where "uA \<equiv> [97]"
abbreviation uB :: jstring where "uB \<equiv> [98]"
abbreviation uC :: jstring where "uC \<equiv> [99]"

abbreviation alice :: Elo where "alice \<equiv> \<lparr>uid = [97], name = [65], elo = 400\<rparr>"
abbreviation bob :: Elo where "bob \<equiv> \<lparr>uid = [98], name = [66], elo = 400\<rparr>"
abbreviation carol :: Elo where "carol \<equiv> \<lparr>uid = [99], name = [67], elo = 400\<rparr>"

abbreviation req_ab :: EloRequest where
  "req_ab \<equiv> \<lparr>rid = 1, src = [97], dest = [98], status = Win,
              srcDeltaElo = 16, destDeltaElo = - 16\<rparr>"
abbreviation req_aa :: EloRequest where
  "req_aa \<equiv> \<lparr>rid = 1, src = [97], dest = [97], status = Win,
              srcDeltaElo = 16, destDeltaElo = - 16\<rparr>"
abbreviation req_ca :: EloRequest where
  "req_ca \<equiv> \<lparr>rid = 2, src = [99], dest = [97], status = Lose,
              srcDeltaElo = - 16, destDeltaElo = 16\<rparr>"

text \<open>One registered player.\<close>

definition store_one :: Store where
  "store_one = run default_config [Register uA [65]] empty_store"

text \<open>Two registered players, the first has proposed a win against the second.\<close>

definition store_pending :: Store where
  "store_pending =
     run default_config
       [Register uA [65], Register uB [66], Update uA uB (Some True)] empty_store"

text \<open>One registered player who has proposed a win against themself.\<close>

definition store_self :: Store where
  "store_self =
     run default_config [Register uA [65], Update uA uA (Some True)] empty_store"


text \<open>
  Three registered players and two requests: the first player has proposed a win
  against the second, the third a loss against the first.
\<close>

definition store_three :: Store where
  "store_three =
     run default_config
       [Register uA [65], Register uB [66], Register uC [67],
        Update uA uB (Some True), Update uC uA (Some False)] empty_store"

text \<open>The store of \<open>store_pending\<close> after the second player has confirmed.\<close>

definition store_confirmed :: Store where
  "store_confirmed =
     run default_config
       [Register uA [65], Register uB [66], Update uA uB (Some True),
        Update uB uA None] empty_store"

section \<open>The Elo formula as the specification words it\<close>






section \<open>Basic facts\<close>

lemmas eval_defs =
  default_config_def empty_store_def register_def update_def check_def truthy_def trim_def
  is_space_def first_def get_elo_def get_request_def create_elo_def create_request_def
  declared_def set_elo_def remove_request_def Let_def

lemma store_one_eq:
  "store_one = \<lparr>w_elo = [alice], w_elo_request = [], autoInc = 1\<rparr>"
  by (simp add: store_one_def eval_defs)

lemma store_pending_eq:
  "store_pending = \<lparr>w_elo = [alice, bob], w_elo_request = [req_ab], autoInc = 2\<rparr>"
  by (simp add: store_pending_def eval_defs)

lemma store_self_eq:
  "store_self = \<lparr>w_elo = [alice], w_elo_request = [req_aa], autoInc = 2\<rparr>"
  by (simp add: store_self_def eval_defs)


lemma store_three_eq:
  "store_three =
     \<lparr>w_elo = [alice, bob, carol], w_elo_request = [req_ab, req_ca], autoInc = 3\<rparr>"
  by (simp add: store_three_def eval_defs)

lemma store_confirmed_eq:
  "store_confirmed =
     \<lparr>w_elo = [alice\<lparr>elo := 416\<rparr>, bob\<lparr>elo := 384\<rparr>], w_elo_request = [], autoInc = 2\<rparr>"
  by (simp add: store_confirmed_def eval_defs)

lemma confirm_pending_eq:
  "snd (update default_config uB uA None store_pending) = store_confirmed"
  by (simp add: store_confirmed_eq store_pending_eq eval_defs)

lemma one_lookups:
  "first (get_elo (w_elo store_one) uA) = Some alice"
  by (simp add: store_one_eq get_elo_def first_def)


lemma pending_lookups:
  "first (get_elo (w_elo store_pending) uA) = Some alice"
  "first (get_elo (w_elo store_pending) uB) = Some bob"
  "first (get_request (w_elo_request store_pending) uA uB) = Some req_ab"
  by (simp_all add: store_pending_eq get_elo_def get_request_def first_def)

lemma three_lookups:
  "first (get_elo (w_elo store_three) uA) = Some alice"
  "first (get_elo (w_elo store_three) uB) = Some bob"
  "first (get_request (w_elo_request store_three) uA uB) = Some req_ab"
  by (simp_all add: store_three_eq get_elo_def get_request_def first_def)

lemma self_lookups:
  "first (get_elo (w_elo store_self) uA) = Some alice"
  "first (get_request (w_elo_request store_self) uA uA) = Some req_aa"
  by (simp_all add: store_self_eq get_elo_def get_request_def first_def)


lemma first_Nil [simp]: "first [] = None"
  by (simp add: first_def)

lemma first_Cons [simp]: "first (x # xs) = Some x"
  by (simp add: first_def)

lemma first_None [simp]: "first xs = None \<longleftrightarrow> xs = []"
  by (cases xs) simp_all

lemma first_Some: "first xs = Some x \<Longrightarrow> x \<in> set xs"
  by (cases xs) auto

lemma update_new:
  assumes "first (get_elo (w_elo s) selfId) = Some self"
    and "first (get_elo (w_elo s) oppoId) = Some oppo"
    and "get_request (w_elo_request s) oppoId selfId = []"
    and "get_request (w_elo_request s) selfId oppoId = []"
  shows "update config selfId oppoId win s =
    (Elo_update_request_ok (name self) (name oppo) (declared win),
     create_request s selfId oppoId (declared win)
       (k config * (status_num (declared win)
          - 1 / (1 + 10 powr ((elo oppo - elo self) / initialElo config))))
       (k config * (1 - status_num (declared win)
          - 1 / (1 + 10 powr (- ((elo oppo - elo self) / initialElo config))))))"
  using assms by (simp add: update_def Let_def)

lemma update_accept:
  assumes "first (get_elo (w_elo s) selfId) = Some self"
    and "first (get_elo (w_elo s) oppoId) = Some oppo"
    and "first (get_request (w_elo_request s) oppoId selfId) = Some req"
  shows "update config selfId oppoId win s =
    (Elo_update_accept_ok (name self) (name oppo)
       (showElo (elo self + destDeltaElo req)) (showDeltaElo (destDeltaElo req))
       (showElo (elo oppo + srcDeltaElo req)) (showDeltaElo (srcDeltaElo req))
       (flip_status (status req)),
     remove_request
       (set_elo (set_elo s selfId (elo self + destDeltaElo req)) oppoId (elo oppo + srcDeltaElo req))
       (rid req))"
  using assms by (simp add: update_def Let_def)

lemma update_duplicate:
  assumes "first (get_elo (w_elo s) selfId) = Some self"
    and "first (get_elo (w_elo s) oppoId) = Some oppo"
    and "get_request (w_elo_request s) oppoId selfId = []"
    and "first (get_request (w_elo_request s) selfId oppoId) = Some req"
  shows "update config selfId oppoId win s =
    (Elo_update_request_duplicate (name self) (name oppo), s)"
  using assms by (simp add: update_def Let_def)

section \<open>The store stays well-formed\<close>

lemma between_pair_key: "between a b r \<longleftrightarrow> pair_key r = {a, b}"
  by (auto simp: between_def pair_key_def doubleton_eq_iff)

lemma distinct_map_filter_le1:
  "distinct (map f xs) \<Longrightarrow> length (filter (\<lambda>x. f x = v) xs) \<le> 1"
proof (induction xs)
  case Nil
  show ?case by simp
next
  case (Cons x xs)
  show ?case
  proof (cases "f x = v")
    case True
    from Cons.prems have "f x \<notin> f ` set xs" by simp
    with True have "\<forall>y\<in>set xs. f y \<noteq> v" by blast
    then have "filter (\<lambda>y. f y = v) xs = []"
      by (simp add: filter_empty_conv)
    with True show ?thesis by simp
  next
    case False
    with Cons show ?thesis by simp
  qed
qed

lemma get_elo_map_empty:
  "get_elo (map (\<lambda>p. if uid p = u then p\<lparr>elo := e\<rparr> else p) tbl) v = [] \<longleftrightarrow> get_elo tbl v = []"
  by (induction tbl) (auto simp: get_elo_def)

lemma get_elo_set_elo_empty [simp]:
  "get_elo (w_elo (set_elo s u e)) v = [] \<longleftrightarrow> get_elo (w_elo s) v = []"
  by (simp add: set_elo_def get_elo_map_empty)

lemma wf_empty: "wf_store empty_store"
  by (simp add: wf_store_def empty_store_def)

lemma wf_register: "wf_store s \<Longrightarrow> wf_store (snd (register config u raw s))"
  by (auto simp: register_def Let_def wf_store_def create_elo_def get_elo_def list_all_iff
      split: option.splits)

lemma wf_check: "wf_store s \<Longrightarrow> wf_store (snd (check u t s))"
  by (auto simp: check_def split: option.splits)

lemma wf_accept:
  assumes "wf_store s"
  shows "wf_store (remove_request (set_elo (set_elo s a x) b y) i)"
proof -
  have "wf_store (set_elo (set_elo s a x) b y)"
    using assms by (simp add: wf_store_def) (simp add: set_elo_def)
  then show ?thesis
    by (auto simp: wf_store_def remove_request_def distinct_map_filter list_all_iff)
qed

lemma wf_create:
  assumes "wf_store s"
    and "get_elo (w_elo s) a \<noteq> []" and "get_elo (w_elo s) b \<noteq> []"
    and "get_request (w_elo_request s) b a = []"
    and "get_request (w_elo_request s) a b = []"
  shows "wf_store (create_request s a b st ds dd)"
proof -
  have "\<not> between a b r" if "r \<in> set (w_elo_request s)" for r
    using that assms(4,5) by (auto simp: between_def get_request_def filter_empty_conv)
  then have "{a, b} \<notin> pair_key ` set (w_elo_request s)"
    by (auto simp: between_pair_key)
  moreover have "autoInc s \<notin> rid ` set (w_elo_request s)"
    using assms(1) by (auto simp: wf_store_def list_all_iff)
  ultimately show ?thesis
    using assms(1,2,3)
    by (auto simp: wf_store_def create_request_def pair_key_def list_all_iff less_Suc_eq)
qed

lemma wf_update:
  assumes "wf_store s"
  shows "wf_store (snd (update config a b win s))"
proof (cases "first (get_elo (w_elo s) a)")
  case None
  then show ?thesis using assms by (simp add: update_def)
next
  case sa: (Some self)
  show ?thesis
  proof (cases "first (get_elo (w_elo s) b)")
    case None
    then show ?thesis using assms sa by (simp add: update_def)
  next
    case sb: (Some oppo)
    show ?thesis
    proof (cases "first (get_request (w_elo_request s) b a)")
      case (Some req)
      then show ?thesis
        using assms by (simp add: update_accept [OF sa sb Some] wf_accept)
    next
      case n1: None
      show ?thesis
      proof (cases "first (get_request (w_elo_request s) a b)")
        case (Some req)
        then show ?thesis
          using assms n1 by (simp add: update_duplicate [OF sa sb _ Some])
      next
        case n2: None
        have "get_elo (w_elo s) a \<noteq> []" "get_elo (w_elo s) b \<noteq> []"
          using sa sb by auto
        then show ?thesis
          using assms n1 n2 sa sb by (simp add: update_new [OF sa sb] wf_create)
      qed
    qed
  qed
qed

lemma wf_step: "wf_store s \<Longrightarrow> wf_store (snd (step config c s))"
  by (cases c) (simp_all add: wf_register wf_check wf_update)

lemma wf_run: "wf_store s \<Longrightarrow> wf_store (run config cs s)"
  by (induction cs arbitrary: s) (simp_all add: wf_step)

lemma wf_reachable: "wf_store (run config cs empty_store)"
  by (simp add: wf_run wf_empty)


section \<open>Lookups after an update, and the expected score\<close>

lemma first_get_elo_set_elo:
  "first (get_elo (w_elo (set_elo s u e)) v) =
     map_option (\<lambda>p. if uid p = u then p\<lparr>elo := e\<rparr> else p) (first (get_elo (w_elo s) v))"
proof -
  have "first (get_elo (map (\<lambda>p. if uid p = u then p\<lparr>elo := e\<rparr> else p) tbl) v) =
        map_option (\<lambda>p. if uid p = u then p\<lparr>elo := e\<rparr> else p) (first (get_elo tbl v))" for tbl
    by (induction tbl) (auto simp: get_elo_def)
  then show ?thesis by (simp add: set_elo_def)
qed

lemma first_get_elo_uid: "first (get_elo tbl v) = Some p \<Longrightarrow> uid p = v"
  by (auto dest!: first_Some simp: get_elo_def)

lemma w_elo_remove_request [simp]: "w_elo (remove_request s i) = w_elo s"
  by (simp add: remove_request_def)

lemma w_elo_request_set_elo [simp]: "w_elo_request (set_elo s u e) = w_elo_request s"
  by (simp add: set_elo_def)

lemma distinct_map_filter_neq:
  assumes "distinct (map f xs)" and "x \<in> set xs"
  shows "filter (\<lambda>y. f y \<noteq> f x) xs = filter (\<lambda>y. y \<noteq> x) xs"
proof (rule filter_cong [OF refl])
  fix y assume "y \<in> set xs"
  with assms have "f y = f x \<longleftrightarrow> y = x"
    by (auto simp: distinct_map dest: inj_onD)
  then show "(f y \<noteq> f x) = (y \<noteq> x)" by simp
qed





section \<open>Requests of one pair, and the frame of a rating write\<close>


lemma wf_between_le1:
  assumes "wf_store s"
  shows "length (filter (between a b) (w_elo_request s)) \<le> 1"
proof -
  have "length (filter (\<lambda>r. pair_key r = {a, b}) (w_elo_request s)) \<le> 1"
    using assms by (intro distinct_map_filter_le1) (simp add: wf_store_def)
  then show ?thesis
    by (simp add: between_pair_key [abs_def])
qed

lemma wf_pair_inj:
  "wf_store s \<Longrightarrow> r \<in> set (w_elo_request s) \<Longrightarrow> r' \<in> set (w_elo_request s) \<Longrightarrow>
     pair_key r = pair_key r' \<Longrightarrow> r = r'"
  by (auto simp: wf_store_def distinct_map dest: inj_onD)

lemma wf_registered:
  "wf_store s \<Longrightarrow> r \<in> set (w_elo_request s) \<Longrightarrow>
     get_elo (w_elo s) (src r) \<noteq> [] \<and> get_elo (w_elo s) (dest r) \<noteq> []"
  by (simp add: wf_store_def list_all_iff)

lemma first_get_request:
  "first (get_request tbl a b) = Some r \<Longrightarrow> r \<in> set tbl \<and> src r = a \<and> dest r = b"
  by (auto dest!: first_Some simp: get_request_def)

lemma first_nonempty: "xs \<noteq> [] \<Longrightarrow> \<exists>x. first xs = Some x"
  by (cases xs) simp_all

lemma no_request_after_remove:
  assumes "wf_store s" and "req \<in> set (w_elo_request s)" and "pair_key req = {a, b}"
  shows "get_request (filter (\<lambda>r. rid r \<noteq> rid req) (w_elo_request s)) a b = []"
proof -
  have "\<not> (src r = a \<and> dest r = b)"
    if "r \<in> set (w_elo_request s)" and "rid r \<noteq> rid req" for r
  proof
    assume "src r = a \<and> dest r = b"
    then have "pair_key r = pair_key req"
      using assms(3) by (simp add: pair_key_def)
    with assms(1,2) that(1) have "r = req"
      by (simp add: wf_pair_inj)
    with that(2) show False by simp
  qed
  then show ?thesis
    by (auto simp: get_request_def filter_empty_conv)
qed

lemma map_uid_set_elo: "map uid (w_elo (set_elo s u e)) = map uid (w_elo s)"
  by (simp add: set_elo_def)


lemma map_name_set_elo: "map name (w_elo (set_elo s u e)) = map name (w_elo s)"
  by (simp add: set_elo_def)

lemma filter_others_set_elo:
  assumes "u = a \<or> u = b"
  shows "filter (\<lambda>p. uid p \<noteq> a \<and> uid p \<noteq> b) (w_elo (set_elo s u e))
           = filter (\<lambda>p. uid p \<noteq> a \<and> uid p \<noteq> b) (w_elo s)"
proof -
  have "filter (\<lambda>p. uid p \<noteq> a \<and> uid p \<noteq> b) (map (\<lambda>p. if uid p = u then p\<lparr>elo := e\<rparr> else p) tbl)
          = filter (\<lambda>p. uid p \<noteq> a \<and> uid p \<noteq> b) tbl" for tbl
    using assms by (induction tbl) auto
  then show ?thesis by (simp add: set_elo_def)
qed

lemma remove_by_rid:
  assumes "wf_store s" and "req \<in> set (w_elo_request s)"
  shows "filter (\<lambda>r. rid r \<noteq> rid req) (w_elo_request s) = remove1 req (w_elo_request s)"
proof -
  have d: "distinct (map rid (w_elo_request s))"
    using assms(1) by (simp add: wf_store_def)
  then have "distinct (w_elo_request s)"
    by (simp add: distinct_map)
  then have "remove1 req (w_elo_request s) = filter (\<lambda>r. r \<noteq> req) (w_elo_request s)"
    by (simp add: distinct_remove1_removeAll removeAll_filter_not_eq) (metis)
  with distinct_map_filter_neq [OF d assms(2)] show ?thesis by simp
qed

section \<open>Claims\<close>

subsection \<open>C1: what a confirmation commits\<close>

text \<open>
  C1, as stated, fails when a player confirms a request they proposed against
  themself: caller and opponent are one row, the second write (the opponent's) lands
  on it, and the stored rating is the old one plus \<open>srcDeltaElo\<close> (416), not plus
  \<open>destDeltaElo\<close> (384). With the writes in the other order the opponent's half
  would fail instead, since the two deltas differ.
\<close>

theorem confirmation_self_counterexample:
  "first (get_elo (w_elo store_self) uA) = Some alice
   \<and> first (get_request (w_elo_request store_self) uA uA) = Some req_aa
   \<and> first (get_elo (w_elo (snd (update default_config uA uA (Some True) store_self))) uA)
       = Some (alice\<lparr>elo := 416\<rparr>)
   \<and> elo alice + destDeltaElo req_aa = 384"
  by (simp add: store_self_eq eval_defs)

text \<open>
  C1 (amended). For every confirmation between two different players (an update by
  \<open>selfId\<close> naming \<open>oppoId\<close> that finds a request \<open>req\<close> with \<open>src = oppoId\<close> and
  \<open>dest = selfId\<close>), the store \<open>s'\<close> afterwards holds the caller's row with the
  rating \<open>elo self + destDeltaElo req\<close> and the opponent's row with the rating
  \<open>elo oppo + srcDeltaElo req\<close>, and no request with the key of \<open>req\<close> is left.
\<close>

theorem confirmation_commits:
  assumes "first (get_elo (w_elo s) selfId) = Some self"
    and "first (get_elo (w_elo s) oppoId) = Some oppo"
    and "first (get_request (w_elo_request s) oppoId selfId) = Some req"
    and "selfId \<noteq> oppoId"
    and "s' = snd (update config selfId oppoId win s)"
  shows "first (get_elo (w_elo s') selfId) = Some (self\<lparr>elo := elo self + destDeltaElo req\<rparr>)
       \<and> first (get_elo (w_elo s') oppoId) = Some (oppo\<lparr>elo := elo oppo + srcDeltaElo req\<rparr>)
       \<and> rid req \<notin> rid ` set (w_elo_request s')"
proof -
  have "uid self = selfId" "uid oppo = oppoId"
    using assms(1,2) by (auto dest: first_get_elo_uid)
  then show ?thesis
    using assms
    by (auto simp: update_accept [OF assms(1-3)] first_get_elo_set_elo remove_request_def)
qed

theorem confirmation_commits_witness:
  "first (get_elo (w_elo store_confirmed) uB) = Some (bob\<lparr>elo := 384\<rparr>)
   \<and> first (get_elo (w_elo store_confirmed) uA) = Some (alice\<lparr>elo := 416\<rparr>)
   \<and> rid req_ab \<notin> rid ` set (w_elo_request store_confirmed)"
  using confirmation_commits [OF pending_lookups(2) pending_lookups(1) pending_lookups(3) _
      confirm_pending_eq [symmetric]]
  by simp

subsection \<open>C2: the stored deltas follow the Elo formula\<close>



subsection \<open>C3: one pending request per pair\<close>

text \<open>
  C3. In every store reached from the empty one by a sequence of register, check and
  update commands, and for every two players \<open>a\<close> and \<open>b\<close>, at most one request has
  \<open>(src, dest)\<close> equal to \<open>(a, b)\<close> or \<open>(b, a)\<close>.
\<close>

theorem pending_pair_unique:
  "length (filter (\<lambda>r. (src r = a \<and> dest r = b) \<or> (src r = b \<and> dest r = a))
     (w_elo_request (run config cs empty_store))) \<le> 1"
  using wf_between_le1 [OF wf_reachable, of a b config cs]
  by (simp add: between_def [abs_def])

theorem pending_pair_unique_witness:
  "length (filter (\<lambda>r. (src r = uB \<and> dest r = uA) \<or> (src r = uA \<and> dest r = uB))
     (w_elo_request store_pending)) \<le> 1
   \<and> w_elo_request store_pending = [req_ab]"
  using pending_pair_unique [of uB uA default_config
      "[Register uA [65], Register uB [66], Update uA uB (Some True)]"]
  by (simp add: store_pending_def [symmetric]) (simp add: store_pending_eq)

subsection \<open>C4: a second confirmation\<close>

text \<open>
  C4, as stated, fails: the source has no answer for "nothing pending". Once the
  request is confirmed and removed, the same call again finds no request in either
  direction and is handled as a new proposal from the confirmer.
\<close>

theorem second_confirmation_counterexample:
  "snd (update default_config uB uA None store_pending) = store_confirmed
   \<and> w_elo_request store_confirmed = []
   \<and> fst (update default_config uB uA None store_confirmed)
       = Elo_update_request_ok [66] [65] Lose
   \<and> map (\<lambda>r. (src r, dest r))
       (w_elo_request (snd (update default_config uB uA None store_confirmed)))
       = [(uB, uA)]"
  by (simp add: confirm_pending_eq) (simp add: store_confirmed_eq eval_defs)

text \<open>
  C4 (amended). In a store reached from the empty one, after a confirmation by
  \<open>selfId\<close> of a request proposed by \<open>oppoId\<close> has led to the store \<open>s'\<close>, the
  same call again changes no rating: it answers \<open>elo-update-request-ok\<close> and appends
  one new request from \<open>selfId\<close> to \<open>oppoId\<close> with the outcome declared in that call.
\<close>

theorem second_confirmation_is_new_proposal:
  assumes "s = run config cs empty_store"
    and "first (get_elo (w_elo s) selfId) = Some self"
    and "first (get_elo (w_elo s) oppoId) = Some oppo"
    and "first (get_request (w_elo_request s) oppoId selfId) = Some req"
    and "s' = snd (update config selfId oppoId win s)"
    and "s'' = snd (update config selfId oppoId win s')"
  shows "fst (update config selfId oppoId win s')
           = Elo_update_request_ok (name self) (name oppo) (declared win)
       \<and> w_elo s'' = w_elo s'
       \<and> map (\<lambda>r. (src r, dest r, status r)) (w_elo_request s'')
           = map (\<lambda>r. (src r, dest r, status r)) (w_elo_request s')
             @ [(selfId, oppoId, declared win)]"
proof -
  have wf: "wf_store s"
    using assms(1) by (simp add: wf_reachable)
  have req: "req \<in> set (w_elo_request s)" "src req = oppoId" "dest req = selfId"
    using first_get_request [OF assms(4)] by simp_all
  have s': "s' = remove_request
      (set_elo (set_elo s selfId (elo self + destDeltaElo req)) oppoId (elo oppo + srcDeltaElo req))
      (rid req)"
    using assms(5) by (simp add: update_accept [OF assms(2-4)])
  have reqs: "w_elo_request s' = filter (\<lambda>r. rid r \<noteq> rid req) (w_elo_request s)"
    by (simp add: s' remove_request_def)
  obtain self' oppo' where so: "first (get_elo (w_elo s') selfId) = Some self'"
      "first (get_elo (w_elo s') oppoId) = Some oppo'"
      and nm: "name self' = name self" "name oppo' = name oppo"
    using assms(2,3) by (auto simp: s' first_get_elo_set_elo)
  have n1: "get_request (w_elo_request s') oppoId selfId = []"
    unfolding reqs using wf req(1)
    by (rule no_request_after_remove) (simp add: pair_key_def req)
  have n2: "get_request (w_elo_request s') selfId oppoId = []"
    unfolding reqs using wf req(1)
    by (rule no_request_after_remove) (auto simp: pair_key_def req)
  show ?thesis
    by (simp add: assms(6) update_new [OF so n1 n2] nm create_request_def)
qed

theorem second_confirmation_is_new_proposal_witness:
  "fst (update default_config uB uA None store_confirmed) = Elo_update_request_ok [66] [65] Lose
   \<and> w_elo (snd (update default_config uB uA None store_confirmed)) = w_elo store_confirmed
   \<and> map (\<lambda>r. (src r, dest r, status r))
       (w_elo_request (snd (update default_config uB uA None store_confirmed)))
       = [(uB, uA, Lose)]"
  using second_confirmation_is_new_proposal [OF store_pending_def pending_lookups(2)
      pending_lookups(1) pending_lookups(3) confirm_pending_eq [symmetric] refl]
  by (simp add: declared_def store_confirmed_eq)

subsection \<open>C5: the two deltas of a proposal sum to zero\<close>



subsection \<open>C6: a repeated proposal\<close>

text \<open>
  C6, as stated, fails when the caller names themself: the request from the caller to
  the caller is found by the first lookup (\<open>src = oppoId\<close>, \<open>dest = selfId\<close>), so the
  call is a confirmation. It answers \<open>elo-update-accept-ok\<close> and removes the request.
\<close>

theorem duplicate_self_counterexample:
  "first (get_request (w_elo_request store_self) uA uA) = Some req_aa
   \<and> fst (update default_config uA uA (Some True) store_self)
       = Elo_update_accept_ok [65] [65] 384 ('''', - 16) 416 (''+'', 16) Lose
   \<and> w_elo_request (snd (update default_config uA uA (Some True) store_self)) = []"
  by (simp add: store_self_eq eval_defs showElo_def showDeltaElo_def Math_round_def)

text \<open>
  C6 (amended). In a store reached from the empty one, if a request from \<open>selfId\<close> to
  a different player \<open>oppoId\<close> is pending, another update by \<open>selfId\<close> naming
  \<open>oppoId\<close> answers \<open>elo-update-request-duplicate\<close> with the two stored names and
  leaves the store as it is; exactly one request between the two players is in it.
\<close>

theorem duplicate_proposal_rejected:
  assumes "s = run config cs empty_store"
    and "first (get_request (w_elo_request s) selfId oppoId) = Some req"
    and "selfId \<noteq> oppoId"
  shows "(\<exists>self oppo. first (get_elo (w_elo s) selfId) = Some self
            \<and> first (get_elo (w_elo s) oppoId) = Some oppo
            \<and> update config selfId oppoId win s
                = (Elo_update_request_duplicate (name self) (name oppo), s))
       \<and> length (filter (\<lambda>r. (src r = selfId \<and> dest r = oppoId)
                              \<or> (src r = oppoId \<and> dest r = selfId))
           (w_elo_request (snd (update config selfId oppoId win s)))) = 1"
proof -
  have wf: "wf_store s"
    using assms(1) by (simp add: wf_reachable)
  have req: "req \<in> set (w_elo_request s)" "src req = selfId" "dest req = oppoId"
    using first_get_request [OF assms(2)] by simp_all
  obtain self oppo where so: "first (get_elo (w_elo s) selfId) = Some self"
      "first (get_elo (w_elo s) oppoId) = Some oppo"
    using wf_registered [OF wf req(1)] req(2,3) by (auto dest!: first_nonempty)
  have rev: "get_request (w_elo_request s) oppoId selfId = []"
  proof -
    have "\<not> (src r = oppoId \<and> dest r = selfId)" if "r \<in> set (w_elo_request s)" for r
    proof
      assume r: "src r = oppoId \<and> dest r = selfId"
      then have "pair_key r = pair_key req"
        using req(2,3) by (auto simp: pair_key_def)
      with wf that req(1) have "r = req"
        by (simp add: wf_pair_inj)
      with r req(2) assms(3) show False by simp
    qed
    then show ?thesis
      by (auto simp: get_request_def filter_empty_conv)
  qed
  have dup: "update config selfId oppoId win s
               = (Elo_update_request_duplicate (name self) (name oppo), s)"
    by (rule update_duplicate [OF so rev assms(2)])
  have "between selfId oppoId req"
    using req(2,3) by (simp add: between_def)
  with req(1) have "req \<in> set (filter (between selfId oppoId) (w_elo_request s))"
    by simp
  then have "0 < length (filter (between selfId oppoId) (w_elo_request s))"
    by (rule length_pos_if_in_set)
  with wf_between_le1 [OF wf, of selfId oppoId]
  have "length (filter (between selfId oppoId) (w_elo_request s)) = 1"
    by linarith
  with so dup show ?thesis
    by (simp add: between_def [abs_def])
qed

theorem duplicate_proposal_rejected_witness:
  "update default_config uA uB (Some True) store_pending
       = (Elo_update_request_duplicate [65] [66], store_pending)
   \<and> length (filter (\<lambda>r. (src r = uA \<and> dest r = uB) \<or> (src r = uB \<and> dest r = uA))
        (w_elo_request (snd (update default_config uA uB (Some True) store_pending)))) = 1"
  using duplicate_proposal_rejected [OF store_pending_def pending_lookups(3), of "Some True"]
    pending_lookups(1,2)
  by auto

subsection \<open>C7: registering twice\<close>

text \<open>
  C7, as stated, fails for a name that is empty after trimming: the name is checked
  before the lookup, so a registered caller is answered \<open>elo-register-invalid-name\<close>.
\<close>

theorem register_twice_blank_counterexample:
  "first (get_elo (w_elo store_one) uA) = Some alice
   \<and> register default_config uA [32] store_one = (Elo_register_invalid_name, store_one)"
  by (simp add: store_one_eq eval_defs)

text \<open>
  C7 (amended). A register command by a caller who already has a row leaves the store
  as it is; it answers \<open>elo-register-duplicate\<close> with the stored name when the given
  name is not empty after trimming, and \<open>elo-register-invalid-name\<close> when it is.
\<close>

theorem register_twice:
  assumes "first (get_elo (w_elo s) session_uid) = Some self"
  shows "snd (register config session_uid raw s) = s
       \<and> (if trim raw = [] then
            fst (register config session_uid raw s) = Elo_register_invalid_name
          else fst (register config session_uid raw s) = Elo_register_duplicate (name self))"
  using assms by (simp add: register_def Let_def)

theorem register_twice_witness:
  "trim [32, 66, 32] = [66]
   \<and> register default_config uA [32, 66, 32] store_one = (Elo_register_duplicate [65], store_one)"
proof -
  have t: "trim [32, 66, 32] = [66]"
    by (simp add: trim_def is_space_def)
  with register_twice [OF one_lookups, of default_config "[32, 66, 32]"]
  show ?thesis by (simp add: prod_eq_iff)
qed

subsection \<open>C9: the signs of the two deltas\<close>



subsection \<open>C10: what a confirmation leaves alone\<close>

text \<open>
  C10. In a store reached from the empty one, a confirmation leading to the store
  \<open>s'\<close> keeps the \<open>uid\<close> and the \<open>name\<close> of every player row, keeps the rows of
  all players other than the caller and the opponent as they are, and takes exactly
  the matched request out of the request table, every other request staying as it is
  and in its place.
\<close>

theorem confirmation_frame:
  assumes "s = run config cs empty_store"
    and "first (get_elo (w_elo s) selfId) = Some self"
    and "first (get_elo (w_elo s) oppoId) = Some oppo"
    and "first (get_request (w_elo_request s) oppoId selfId) = Some req"
    and "s' = snd (update config selfId oppoId win s)"
  shows "map uid (w_elo s') = map uid (w_elo s)
       \<and> map name (w_elo s') = map name (w_elo s)
       \<and> filter (\<lambda>p. uid p \<noteq> selfId \<and> uid p \<noteq> oppoId) (w_elo s')
           = filter (\<lambda>p. uid p \<noteq> selfId \<and> uid p \<noteq> oppoId) (w_elo s)
       \<and> w_elo_request s' = remove1 req (w_elo_request s)"
proof -
  have wf: "wf_store s"
    using assms(1) by (simp add: wf_reachable)
  have req: "req \<in> set (w_elo_request s)"
    using first_get_request [OF assms(4)] by simp
  show ?thesis
    by (simp add: assms(5) update_accept [OF assms(2-4)] map_uid_set_elo map_name_set_elo
        filter_others_set_elo remove_request_def remove_by_rid [OF wf req])
qed

theorem confirmation_frame_witness:
  "map uid (w_elo (snd (update default_config uB uA None store_three))) = [uA, uB, uC]
   \<and> map name (w_elo (snd (update default_config uB uA None store_three))) = [[65], [66], [67]]
   \<and> filter (\<lambda>p. uid p \<noteq> uB \<and> uid p \<noteq> uA)
        (w_elo (snd (update default_config uB uA None store_three))) = [carol]
   \<and> w_elo_request (snd (update default_config uB uA None store_three)) = [req_ca]"
  using confirmation_frame [OF store_three_def three_lookups(2) three_lookups(1)
      three_lookups(3) refl, of None]
  by (simp add: store_three_eq)

end
